theory Spec2Isabelle
  imports Complex_Main "HOL-Library.Sublist" "HOL-Library.AList" "HOL-Library.Log_Nat"
begin

section \<open>JavaScript values and built-ins used by the sources\<close>

text \<open>
  Strings are \<^typ>\<open>string\<close>; a string is falsy exactly when it is empty. A thrown
  exception is a value of \<open>js_error\<close> on the left of a sum.
\<close>

datatype js_error = Error string | NotFoundError

text \<open>
  A number is the \<^typ>\<open>real\<close> it denotes. The numbers of the language are IEEE-754
  doubles: the result of an addition or a multiplication is the exact result rounded to
  the nearest number with 53 significant bits, a tie going to the even one.
  \<open>exponent y\<close> is the largest \<open>e\<close> with \<open>2 ^ e \<le> y\<close>, for a positive \<open>y\<close>. The
  exponent is not bounded here: overflow to \<open>Infinity\<close>, the subnormal range and \<open>NaN\<close>
  are not modelled. Where the sources use only the sign of a difference (the comparators
  of \<open>sort\<close>), the difference is left exact, rounding does not change its sign.
\<close>

definition exponent :: "real \<Rightarrow> int" where
  "exponent y =
     (if 1 \<le> y then int (floorlog 2 (nat \<lfloor>y\<rfloor>)) - 1
      else - int (floorlog 2 (nat (\<lceil>1 / y\<rceil> - 1))))"

definition roundEven :: "real \<Rightarrow> int" where
  "roundEven q =
     (let f = \<lfloor>q\<rfloor>; r = q - of_int f in
      if r < 1 / 2 then f else if 1 / 2 < r then f + 1 else if even f then f else f + 1)"

definition roundDouble :: "real \<Rightarrow> real" where
  "roundDouble x =
     (if x = 0 then 0
      else let ulp = 2 powi (exponent \<bar>x\<bar> - 52) in ulp * of_int (roundEven (x / ulp)))"

text \<open>\<open>String.prototype.toLowerCase\<close>, on ASCII letters; every other character is left as
  it is.\<close>

definition lowerChar :: "char \<Rightarrow> char" where
  "lowerChar c =
     (let n = (of_char c :: nat) in if 65 \<le> n \<and> n \<le> 90 then char_of (n + 32) else c)"

definition toLowerCase :: "string \<Rightarrow> string" where
  "toLowerCase s = map lowerChar s"

text \<open>\<open>s.includes(q)\<close>: \<open>q\<close> occurs in \<open>s\<close> as a contiguous run of characters.\<close>

fun js_includes :: "string \<Rightarrow> string \<Rightarrow> bool" where
  "js_includes [] q = (q = [])"
| "js_includes (c # cs) q = (prefix q (c # cs) \<or> js_includes cs q)"

text \<open>\<open>s.endsWith(suf)\<close>.\<close>

definition endsWith :: "string \<Rightarrow> string \<Rightarrow> bool" where
  "endsWith s suf = suffix suf s"

text \<open>
  \<open>Array.prototype.sort(cmp)\<close>. The language standard requires the sort to be stable;
  for a comparator that is a consistent ordering every stable sort returns the same
  array, here computed by insertion: an element is placed before the first later
  element that it does not compare greater than.
\<close>

fun insort_cmp :: "('a \<Rightarrow> 'a \<Rightarrow> real) \<Rightarrow> 'a \<Rightarrow> 'a list \<Rightarrow> 'a list" where
  "insort_cmp cmp x [] = [x]"
| "insort_cmp cmp x (y # ys) =
     (if cmp x y \<le> 0 then x # y # ys else y # insort_cmp cmp x ys)"

definition js_sort :: "('a \<Rightarrow> 'a \<Rightarrow> real) \<Rightarrow> 'a list \<Rightarrow> 'a list" where
  "js_sort cmp xs = foldr (insort_cmp cmp) xs []"

text \<open>
  \<open>localeCompare\<close> and the parsing of a date string to its time value belong to the
  host; the functions that sort by them take both as parameters.
\<close>

record host =
  localeCompare :: "string \<Rightarrow> string \<Rightarrow> real"
  dateValue :: "string \<Rightarrow> real"


section \<open>Document model\<close>

record version =
  version_no :: int
  v_prompt_text :: string
  v_notes :: string
  v_date_created :: string

text \<open>
  A prompt as \<open>createPrompt\<close> builds it: every text field is a string, the embedding is
  an array of numbers or \<open>null\<close>.
\<close>

record prompt =
  prompt_id :: string
  title :: string
  description :: string
  prompt_text :: string
  tags :: string
  status :: string
  p_notes :: string
  category :: string
  client :: string
  date_created :: string
  versions :: "version list"
  embedding :: "real list option"

record template =
  template_id :: string
  t_description :: string
  template_text :: string
  t_notes :: string
  is_favourite :: bool
  t_order :: int

text \<open>The filter object of the application state: \<open>{search, category, client, status, sort}\<close>.\<close>

record search_filter =
  f_search :: string
  f_category :: string
  f_client :: string
  f_status :: string
  f_sort :: string


section \<open>PromptService\<close>

text \<open>
  The three exact-match tests. The source writes these lines out in \<open>filterPrompts\<close> and
  again in both branches of \<open>App.filterAndSortPrompts\<close>; a filter whose value is the
  empty string is inactive.
\<close>

definition matchesExact :: "search_filter \<Rightarrow> prompt \<Rightarrow> bool" where
  "matchesExact flt p =
     (let matchesCat = (if f_category flt \<noteq> [] then category p = f_category flt else True);
          matchesClient = (if f_client flt \<noteq> [] then client p = f_client flt else True);
          matchesStatus = (if f_status flt \<noteq> [] then status p = f_status flt else True)
      in matchesCat \<and> matchesClient \<and> matchesStatus)"

definition filterPrompts :: "prompt list \<Rightarrow> search_filter \<Rightarrow> prompt list" where
  "filterPrompts prompts flt = filter (matchesExact flt) prompts"

definition keywordSearch :: "prompt list \<Rightarrow> string \<Rightarrow> prompt list" where
  "keywordSearch prompts query =
     (if query = [] then prompts
      else let q = toLowerCase query in
        filter (\<lambda>p.
          js_includes (toLowerCase (title p)) q \<or>
          js_includes (toLowerCase (description p)) q \<or>
          js_includes (toLowerCase (prompt_text p)) q \<or>
          js_includes (toLowerCase (tags p)) q \<or>
          js_includes (toLowerCase (p_notes p)) q) prompts)"

text \<open>
  \<open>duplicatePrompt(prompt, generateId)\<close>; the second parameter \<open>now\<close> is the value of
  \<open>new Date().toISOString()\<close> at the call.
\<close>

definition duplicatePrompt :: "prompt \<Rightarrow> (unit \<Rightarrow> string) \<Rightarrow> string \<Rightarrow> prompt" where
  "duplicatePrompt p generateId now =
     p\<lparr>prompt_id := generateId (),
       title := ''COPY '' @ (if title p \<noteq> [] then title p else ''Untitled''),
       status := ''draft'',
       date_created := now,
       versions := [],
       embedding := None\<rparr>"


section \<open>SemanticSearch\<close>

text \<open>
  The instance state. \<open>pipe\<close> is the loaded model, or \<open>null\<close>; calling it either
  throws or yields the embedding of the text.
\<close>

record SemanticSearch =
  pipe :: "(string \<Rightarrow> js_error + real list) option"
  isLoaded :: bool
  isLoading :: bool
  loadError :: "js_error option"
  minScore :: real

definition SemanticSearch_new :: SemanticSearch where
  "SemanticSearch_new =
     \<lparr>pipe = None, isLoaded = False, isLoading = False, loadError = None, minScore = 1 / 4\<rparr>"

text \<open>\<open>setThreshold(val)\<close> stores \<open>parseFloat(val)\<close>; the parameter here is the parsed number.\<close>

definition setThreshold :: "SemanticSearch \<Rightarrow> real \<Rightarrow> SemanticSearch" where
  "setThreshold sem val = sem\<lparr>minScore := val\<rparr>"

definition embed :: "SemanticSearch \<Rightarrow> string \<Rightarrow> real list option" where
  "embed sem text =
     (case pipe sem of
        None \<Rightarrow> None
      | Some f \<Rightarrow>
          if text = [] then None
          else (case f text of Inl e \<Rightarrow> None | Inr output \<Rightarrow> Some output))"

text \<open>
  \<open>cosineSimilarity\<close>, with the arithmetic as a parameter: \<open>rnd\<close> takes the exact result
  of an operation to the number the operation returns. The function of the source is the
  one with double arithmetic.
\<close>

definition cosineSimilarityIn ::
  "(real \<Rightarrow> real) \<Rightarrow> real list option \<Rightarrow> real list option \<Rightarrow> real" where
  "cosineSimilarityIn rnd vecA vecB =
     (case vecA of
        None \<Rightarrow> 0
      | Some a \<Rightarrow>
          (case vecB of
             None \<Rightarrow> 0
           | Some b \<Rightarrow>
               if length a \<noteq> length b then 0
               else foldl (\<lambda>dot i. rnd (dot + rnd (a ! i * b ! i))) 0 [0..<length a]))"

definition cosineSimilarity :: "real list option \<Rightarrow> real list option \<Rightarrow> real" where
  "cosineSimilarity vecA vecB = cosineSimilarityIn roundDouble vecA vecB"

definition search :: "SemanticSearch \<Rightarrow> string \<Rightarrow> prompt list \<Rightarrow> nat \<Rightarrow> (string \<times> real) list" where
  "search sem query prompts topK =
     (if \<not> isLoaded sem then []
      else case embed sem query of
        None \<Rightarrow> []
      | Some queryVec \<Rightarrow>
          let scored =
                filter (\<lambda>result. snd result \<ge> minScore sem)
                  (map (\<lambda>p. (prompt_id p, cosineSimilarity (Some queryVec) (embedding p)))
                     (filter (\<lambda>p. embedding p \<noteq> None) prompts))
          in take topK (js_sort (\<lambda>a b. snd b - snd a) scored))"


section \<open>App.filterAndSortPrompts\<close>

record app_state =
  st_prompts :: "prompt list"
  st_filter :: search_filter
  semanticMode :: bool
  semantic :: SemanticSearch

text \<open>\<open>scoreMap.get(id) || 0\<close> on \<open>new Map(results.map(r => [r.id, r.score]))\<close>: of two
  entries with one id the later one is kept.\<close>

definition scoreOf :: "(string \<times> real) list \<Rightarrow> string \<Rightarrow> real" where
  "scoreOf semanticResults i =
     (case map_of (rev semanticResults) i of None \<Rightarrow> 0 | Some s \<Rightarrow> s)"

text \<open>The comparator of the keyword branch. Every date string is taken to have a time
  value; a string that \<open>new Date\<close> cannot parse (its difference is \<open>NaN\<close>) is not
  modelled.\<close>

definition sortComparator :: "host \<Rightarrow> string \<Rightarrow> prompt \<Rightarrow> prompt \<Rightarrow> real" where
  "sortComparator h sortMode a b =
     (let date = (\<lambda>p. if date_created p \<noteq> [] then dateValue h (date_created p) else 0) in
      if sortMode = ''date-asc'' then date a - date b
      else if sortMode = ''date-desc'' then date b - date a
      else if sortMode = ''name-asc'' then localeCompare h (title a) (title b)
      else if sortMode = ''cat-asc'' then localeCompare h (category a) (category b)
      else if sortMode = ''client-asc'' then localeCompare h (client a) (client b)
      else 0)"

definition filterAndSortPrompts :: "host \<Rightarrow> app_state \<Rightarrow> prompt list" where
  "filterAndSortPrompts h st =
     (let prompts = st_prompts st; flt = st_filter st in
      if f_search flt \<noteq> [] \<and> isLoaded (semantic st) \<and> semanticMode st then
        let semanticResults = search (semantic st) (f_search flt) prompts 50;
            filtered = filter (matchesExact flt) prompts
        in js_sort (\<lambda>a b. scoreOf semanticResults (prompt_id b)
                            - scoreOf semanticResults (prompt_id a)) filtered
      else
        let filtered =
              filter (\<lambda>p.
                let searchSource =
                      toLowerCase (title p @ description p @ prompt_text p @ tags p);
                    matchesSearch = js_includes searchSource (toLowerCase (f_search flt))
                in matchesSearch \<and> matchesExact flt p) prompts;
            sortMode = (if f_sort flt \<noteq> [] then f_sort flt else ''date-desc'')
        in js_sort (sortComparator h sortMode) filtered)"


section \<open>VaultRepo\<close>

text \<open>
  What \<open>JSON.parse\<close> makes of the text of a file: a prompt object (it has a
  \<open>prompt_text\<close> field), a template object (it has \<open>template_text\<close>), or some other
  object, of which only the \<open>id\<close> matters (an object without an \<open>id\<close> is taken as one
  whose \<open>id\<close> is empty). \<open>Garbage\<close> is text that \<open>JSON.parse\<close> rejects. Writing
  \<open>JSON.stringify(data)\<close> and parsing it again gives \<open>data\<close> back.
\<close>

datatype json = PromptJson prompt | TemplateJson template | OtherJson string

datatype file_text = Json json | Garbage

fun JSON_parse :: "file_text \<Rightarrow> js_error + json" where
  "JSON_parse (Json j) = Inr j"
| "JSON_parse Garbage = Inl (Error ''SyntaxError'')"

fun json_id :: "json \<Rightarrow> string" where
  "json_id (PromptJson p) = prompt_id p"
| "json_id (TemplateJson t) = template_id t"
| "json_id (OtherJson i) = i"

text \<open>
  The directory behind the handle: its entries in iteration order, one per file name.
  \<open>removeEntry\<close> throws when no file has the name; \<open>writeFile\<close> creates the file or
  replaces its text. Failures of the file system itself (a revoked permission) are not
  modelled.
\<close>

type_synonym directory = "(string \<times> file_text) list"

definition removeEntry :: "directory \<Rightarrow> string \<Rightarrow> js_error + directory" where
  "removeEntry dir name =
     (if name \<in> fst ` set dir then Inr (AList.delete name dir) else Inl NotFoundError)"

definition writeFile :: "directory \<Rightarrow> string \<Rightarrow> json \<Rightarrow> directory" where
  "writeFile dir fileName data = AList.update fileName (Json data) dir"

record VaultRepo =
  dirHandle :: "directory option"
  isConnected :: bool
  fileMap :: "string \<rightharpoonup> string"

definition VaultRepo_new :: VaultRepo where
  "VaultRepo_new = \<lparr>dirHandle = None, isConnected = False, fileMap = Map.empty\<rparr>"

text \<open>\<open>selectDirectory\<close>: the picker yields the directory the user chose, or throws when
  the user cancels.\<close>

definition selectDirectory :: "VaultRepo \<Rightarrow> directory option \<Rightarrow> VaultRepo \<times> bool" where
  "selectDirectory v picked =
     (case picked of
        Some d \<Rightarrow> (v\<lparr>dirHandle := Some d, isConnected := True\<rparr>, True)
      | None \<Rightarrow> (v, False))"

text \<open>
  The body of the callback \<open>loadAll\<close> runs on each \<open>.json\<close> entry. The source reads the
  entries in batches of 50 whose callbacks run interleaved; here they run one after the
  other, in directory order.
\<close>

definition loadEntry ::
  "VaultRepo \<times> prompt list \<times> template list \<Rightarrow> string \<times> file_text
     \<Rightarrow> VaultRepo \<times> prompt list \<times> template list" where
  "loadEntry acc entry =
     (case acc of (v, prompts, templates) \<Rightarrow>
        (case JSON_parse (snd entry) of
           Inl e \<Rightarrow> (v, prompts, templates)
         | Inr j \<Rightarrow>
             let v' = (if json_id j \<noteq> []
                       then v\<lparr>fileMap := (fileMap v)(json_id j \<mapsto> fst entry)\<rparr> else v)
             in (case j of
                   PromptJson p \<Rightarrow> (v', prompts @ [p], templates)
                 | TemplateJson t \<Rightarrow> (v', prompts, templates @ [t])
                 | OtherJson i \<Rightarrow> (v', prompts, templates))))"

definition loadAll :: "VaultRepo \<Rightarrow> VaultRepo \<times> prompt list \<times> template list" where
  "loadAll v =
     (case dirHandle v of
        None \<Rightarrow> (v, [], [])
      | Some dir \<Rightarrow>
          let fileHandles = filter (\<lambda>entry. endsWith (fst entry) ''.json'') dir
          in foldl loadEntry (v\<lparr>fileMap := Map.empty\<rparr>, [], []) fileHandles)"

text \<open>\<open>replace(/[^a-z0-9]/gi, '_')\<close> on one character.\<close>

definition safeChar :: "char \<Rightarrow> char" where
  "safeChar c =
     (let n = (of_char c :: nat) in
      if (48 \<le> n \<and> n \<le> 57) \<or> (65 \<le> n \<and> n \<le> 90) \<or> (97 \<le> n \<and> n \<le> 122)
      then c else CHR ''_'')"

definition promptFileName :: "prompt \<Rightarrow> string" where
  "promptFileName p =
     (let safeTitle = map safeChar (if title p \<noteq> [] then title p else ''Untitled'')
      in safeTitle @ ''__'' @ prompt_id p @ ''.json'')"

definition templateFileName :: "template \<Rightarrow> string" where
  "templateFileName t =
     (let safeDesc = map safeChar (if t_description t \<noteq> [] then t_description t else ''Template'')
      in ''TEMPLATE_'' @ safeDesc @ ''__'' @ template_id t @ ''.json'')"

text \<open>The rename check shared by \<open>savePrompt\<close> and \<open>saveTemplate\<close>: the old file is
  removed when the map knows a different name for the id; a failing removal is caught.\<close>

definition removeOld :: "VaultRepo \<Rightarrow> directory \<Rightarrow> string \<Rightarrow> string \<Rightarrow> directory" where
  "removeOld v dir i newFileName =
     (case fileMap v i of
        None \<Rightarrow> dir
      | Some oldFileName \<Rightarrow>
          if oldFileName \<noteq> [] \<and> oldFileName \<noteq> newFileName
          then (case removeEntry dir oldFileName of Inl e \<Rightarrow> dir | Inr d \<Rightarrow> d)
          else dir)"

definition savePrompt :: "VaultRepo \<Rightarrow> prompt \<Rightarrow> js_error + VaultRepo \<times> string" where
  "savePrompt v p =
     (case dirHandle v of
        None \<Rightarrow> Inl (Error ''Vault not connected'')
      | Some dir \<Rightarrow>
          let newFileName = promptFileName p;
              dir1 = removeOld v dir (prompt_id p) newFileName;
              dir2 = writeFile dir1 newFileName (PromptJson p)
          in Inr (v\<lparr>dirHandle := Some dir2,
                     fileMap := (fileMap v)(prompt_id p \<mapsto> newFileName)\<rparr>, newFileName))"

definition saveTemplate :: "VaultRepo \<Rightarrow> template \<Rightarrow> js_error + VaultRepo" where
  "saveTemplate v t =
     (case dirHandle v of
        None \<Rightarrow> Inl (Error ''Vault not connected'')
      | Some dir \<Rightarrow>
          let newFileName = templateFileName t;
              dir1 = removeOld v dir (template_id t) newFileName;
              dir2 = writeFile dir1 newFileName (TemplateJson t)
          in Inr (v\<lparr>dirHandle := Some dir2,
                     fileMap := (fileMap v)(template_id t \<mapsto> newFileName)\<rparr>))"

text \<open>The slow path of \<open>deleteFile\<close>: the loop over the directory entries, which returns
  at the first file whose parsed id is the one asked for.\<close>

fun scanDelete :: "VaultRepo \<Rightarrow> directory \<Rightarrow> (string \<times> file_text) list \<Rightarrow> string \<Rightarrow> VaultRepo" where
  "scanDelete v dir [] i = v"
| "scanDelete v dir (entry # entries) i =
     (if endsWith (fst entry) ''.json'' then
        (case JSON_parse (snd entry) of
           Inl e \<Rightarrow> scanDelete v dir entries i
         | Inr j \<Rightarrow>
             if json_id j = i then
               (case removeEntry dir (fst entry) of
                  Inl e \<Rightarrow> scanDelete v dir entries i
                | Inr d \<Rightarrow> v\<lparr>dirHandle := Some d, fileMap := (fileMap v)(i := None)\<rparr>)
             else scanDelete v dir entries i)
      else scanDelete v dir entries i)"

definition deleteFile :: "VaultRepo \<Rightarrow> string \<Rightarrow> js_error + VaultRepo" where
  "deleteFile v i =
     (case dirHandle v of
        None \<Rightarrow> Inr v
      | Some dir \<Rightarrow>
          (case fileMap v i of
             None \<Rightarrow> Inr (scanDelete v dir dir i)
           | Some cachedFileName \<Rightarrow>
               if cachedFileName \<noteq> [] then
                 (case removeEntry dir cachedFileName of
                    Inr d \<Rightarrow> Inr (v\<lparr>dirHandle := Some d, fileMap := (fileMap v)(i := None)\<rparr>)
                  | Inl e \<Rightarrow> Inr (scanDelete v dir dir i))
               else Inr (scanDelete v dir dir i)))"

definition deletePrompt :: "VaultRepo \<Rightarrow> string \<Rightarrow> js_error + VaultRepo" where
  "deletePrompt v i = deleteFile v i"

definition deleteTemplate :: "VaultRepo \<Rightarrow> string \<Rightarrow> js_error + VaultRepo" where
  "deleteTemplate v i = deleteFile v i"

definition getAllPrompts :: "VaultRepo \<Rightarrow> VaultRepo \<times> prompt list" where
  "getAllPrompts v = (case loadAll v of (v', prompts, templates) \<Rightarrow> (v', prompts))"

text \<open>
  What a scan of the whole directory finds for an id: the \<open>.json\<close> entries whose text
  parses to an object with that \<open>id\<close> (the test of the slow path of \<open>deleteFile\<close>), and
  their names. \<open>savedDirectory\<close> reads the directory a save left behind.
\<close>

definition fileHasId :: "string \<Rightarrow> string \<times> file_text \<Rightarrow> bool" where
  "fileHasId i entry =
     (endsWith (fst entry) ''.json'' \<and>
      (case JSON_parse (snd entry) of Inl e \<Rightarrow> False | Inr j \<Rightarrow> json_id j = i))"

definition filesWithId :: "directory \<Rightarrow> string \<Rightarrow> string list" where
  "filesWithId dir i = map fst (filter (fileHasId i) dir)"

definition savedDirectory :: "js_error + VaultRepo \<times> string \<Rightarrow> directory" where
  "savedDirectory r =
     (case r of
        Inl e \<Rightarrow> []
      | Inr saved \<Rightarrow> (case dirHandle (fst saved) of None \<Rightarrow> [] | Some d \<Rightarrow> d))"


section \<open>IndexedDBRepo.init\<close>

text \<open>
  \<open>init\<close> opens the database and installs four handlers on the request; what the caller
  gets is the promise those handlers settle. The events the request fires are the input
  of the model. A promise is settled once: later calls of \<open>resolve\<close> or \<open>reject\<close> change
  nothing.
\<close>

datatype idb_event = Blocked | UpgradeNeeded | Success | Failed

datatype 'a promise = Pending | Resolved 'a | Rejected string

text \<open>A database is its object stores: name and index names.\<close>

type_synonym database = "(string \<times> string list) list"

record init_run =
  request_result :: database
  this_db :: "database option"
  promise_of :: "database promise"
  alerts :: "string list"

definition settle :: "'a promise \<Rightarrow> 'a promise \<Rightarrow> 'a promise" where
  "settle p outcome = (case p of Pending \<Rightarrow> outcome | Resolved x \<Rightarrow> p | Rejected e \<Rightarrow> p)"

definition createObjectStore :: "database \<Rightarrow> string \<Rightarrow> string list \<Rightarrow> database" where
  "createObjectStore db name indexes =
     (if name \<in> fst ` set db then db else db @ [(name, indexes)])"

definition onblocked :: "init_run \<Rightarrow> init_run" where
  "onblocked r =
     r\<lparr>alerts := alerts r @
        [''Database Update Blocked: Please close all other tabs/windows of this app and refresh.'']\<rparr>"

definition onupgradeneeded :: "init_run \<Rightarrow> init_run" where
  "onupgradeneeded r =
     (let db1 = createObjectStore (request_result r) ''prompts'' [''category'', ''client''];
          db2 = createObjectStore db1 ''templates'' [];
          db3 = createObjectStore db2 ''collections'' []
      in r\<lparr>request_result := db3\<rparr>)"

definition onsuccess :: "init_run \<Rightarrow> init_run" where
  "onsuccess r =
     r\<lparr>this_db := Some (request_result r),
       promise_of := settle (promise_of r) (Resolved (request_result r))\<rparr>"

definition onerror :: "init_run \<Rightarrow> init_run" where
  "onerror r =
     r\<lparr>alerts := alerts r @ [''Database Error. Check console for details.''],
       promise_of := settle (promise_of r) (Rejected ''DB Error'')\<rparr>"

fun dispatch :: "init_run \<Rightarrow> idb_event \<Rightarrow> init_run" where
  "dispatch r Blocked = onblocked r"
| "dispatch r UpgradeNeeded = onupgradeneeded r"
| "dispatch r Success = onsuccess r"
| "dispatch r Failed = onerror r"

definition IndexedDBRepo_init :: "database \<Rightarrow> idb_event list \<Rightarrow> init_run" where
  "IndexedDBRepo_init existing events =
     foldl dispatch
       \<lparr>request_result = existing, this_db = None, promise_of = Pending, alerts = []\<rparr> events"


section \<open>Example data\<close>

text \<open>A host whose comparisons find every two strings and dates equal.\<close>

definition host0 :: host where
  "host0 = \<lparr>localeCompare = (\<lambda>a b. 0), dateValue = (\<lambda>s. 0)\<rparr>"

text \<open>A prompt with the given id (also its title), category, status, notes and embedding.\<close>

definition doc :: "string \<Rightarrow> string \<Rightarrow> string \<Rightarrow> string \<Rightarrow> real list option \<Rightarrow> prompt" where
  "doc i cat st nts e =
     \<lparr>prompt_id = i, title = i, description = [], prompt_text = [], tags = [], status = st,
      p_notes = nts, category = cat, client = [], date_created = [], versions = [],
      embedding = e\<rparr>"

text \<open>A loaded model that embeds every query as \<open>[1, 0]\<close>, with threshold \<open>t\<close>.\<close>

definition semReady :: "real \<Rightarrow> SemanticSearch" where
  "semReady t =
     \<lparr>pipe = Some (\<lambda>text. Inr [1, 0]), isLoaded = True, isLoading = False,
      loadError = None, minScore = t\<rparr>"

definition vecDocs :: "prompt list" where
  "vecDocs =
     [doc ''doc1'' [] ''live'' [] (Some [1, 0]),
      doc ''doc2'' [] ''live'' [] (Some [0, 1]),
      doc ''doc3'' [] ''live'' [] (Some [roundDouble (9 / 10), roundDouble (1 / 10)])]"

definition noFilter :: "string \<Rightarrow> search_filter" where
  "noFilter q =
     \<lparr>f_search = q, f_category = [], f_client = [], f_status = [], f_sort = ''date-desc''\<rparr>"

definition semanticState :: app_state where
  "semanticState =
     \<lparr>st_prompts = vecDocs, st_filter = noFilter ''query'', semanticMode = True,
      semantic = semReady (1 / 4)\<rparr>"

definition abcDocs :: "prompt list" where
  "abcDocs =
     [doc ''a'' ''X'' ''live'' [] None, doc ''b'' ''Y'' ''live'' [] None,
      doc ''c'' ''X'' ''draft'' [] None]"

definition categoryState :: app_state where
  "categoryState =
     \<lparr>st_prompts = abcDocs, st_filter = (noFilter [])\<lparr>f_category := ''X''\<rparr>,
      semanticMode = True, semantic = SemanticSearch_new\<rparr>"

text \<open>Semantic mode requested with a query, the model not loaded, one filter active.\<close>

definition fallbackState :: app_state where
  "fallbackState =
     \<lparr>st_prompts = abcDocs, st_filter = (noFilter ''A'')\<lparr>f_category := ''X''\<rparr>,
      semanticMode = True, semantic = SemanticSearch_new\<rparr>"


definition notesDoc :: prompt where
  "notesDoc = doc ''Report'' [] ''live'' ''Internal SECRET'' None"

definition keywordState :: app_state where
  "keywordState =
     \<lparr>st_prompts = [notesDoc], st_filter = noFilter ''secret'', semanticMode = False,
      semantic = SemanticSearch_new\<rparr>"

definition draftDoc :: prompt where
  "draftDoc = (doc ''p1'' [] ''draft'' [] None)\<lparr>title := ''Draft''\<rparr>"

definition finalDoc :: prompt where
  "finalDoc = draftDoc\<lparr>title := ''Final''\<rparr>"

definition draftDir :: directory where
  "draftDir = [(''Draft__p1.json'', Json (PromptJson draftDoc))]"

text \<open>A vault whose directory has just been selected, and the same vault after \<open>loadAll\<close>.\<close>

definition selectedVault :: VaultRepo where
  "selectedVault = fst (selectDirectory VaultRepo_new (Some draftDir))"

definition loadedVault :: VaultRepo where
  "loadedVault = fst (loadAll selectedVault)"


section \<open>Properties of the built-ins\<close>

lemma js_includes_sublist: "js_includes s q \<longleftrightarrow> sublist q s"
  by (induction s) (auto simp: sublist_Cons_right)

lemma js_includes_Nil [simp]: "js_includes s []"
  by (induction s) auto

lemma set_insort_cmp: "set (insort_cmp cmp x ys) = insert x (set ys)"
  by (induction ys) auto

lemma set_js_sort: "set (js_sort cmp xs) = set xs"
  by (induction xs) (auto simp: js_sort_def set_insort_cmp)

lemma length_insort_cmp: "length (insort_cmp cmp x ys) = Suc (length ys)"
  by (induction ys) auto

lemma length_js_sort: "length (js_sort cmp xs) = length xs"
  by (induction xs) (auto simp: js_sort_def length_insort_cmp)

text \<open>With a comparator that subtracts keys, \<open>js_sort\<close> is the library's stable sort by
  the negated key: descending, equal keys in their original order.\<close>

lemma insort_cmp_key:
  fixes f :: "'a \<Rightarrow> real"
  shows "insort_cmp (\<lambda>a b. f b - f a) x ys = insort_key (\<lambda>a. - f a) x ys"
  by (induction ys) auto

lemma js_sort_key:
  fixes f :: "'a \<Rightarrow> real"
  shows "js_sort (\<lambda>a b. f b - f a) xs = sort_key (\<lambda>a. - f a) xs"
  by (induction xs) (auto simp: js_sort_def sort_key_def insort_cmp_key)


section \<open>Double arithmetic\<close>

text \<open>\<open>exponent\<close> finds the binade of its argument, the binade and the rounded quotient
  determine \<open>roundDouble\<close>, and a number of at most 53 significant bits is left as it is.\<close>

lemma exponent_bounds:
  assumes "0 < y"
  shows "2 powi (exponent y) \<le> y \<and> y < 2 powi (exponent y + 1)"
proof (cases "1 \<le> y")
  case True
  define n where "n = nat \<lfloor>y\<rfloor>"
  define k where "k = floorlog 2 n"
  from True have n: "0 < n" "real n \<le> y" "y < real n + 1"
    by ((auto simp add: n_def)[1] | linarith)+
  from floorlog_bounds [of n 2] n(1) have b: "2 ^ (k - 1) \<le> n" "n < 2 ^ k"
    by (simp_all add: k_def)
  from n(1) have k: "0 < k"
    by (simp add: k_def floorlog_def)
  have e: "exponent y = int (k - 1)"
    using True k by (simp add: exponent_def n_def k_def)
  have r1: "(2::real) ^ (k - 1) \<le> real n"
    using of_nat_mono [OF b(1), where 'a = real] by simp
  have p1: "2 powi (exponent y) = (2::real) ^ (k - 1)"
    by (simp only: e power_int_of_nat)
  have lo: "2 powi (exponent y) \<le> y"
    using r1 n(2) p1 by linarith
  have "n + 1 \<le> 2 ^ k" using b(2) by simp
  from of_nat_mono [OF this, where 'a = real] have r2: "real n + 1 \<le> 2 ^ k" by simp
  have "exponent y + 1 = int k" using e k by simp
  then have p2: "2 powi (exponent y + 1) = (2::real) ^ k"
    by (simp only: power_int_of_nat)
  have hi: "y < 2 powi (exponent y + 1)"
    using r2 n(3) p2 by linarith
  from lo hi show ?thesis ..
next
  case False
  define z where "z = 1 / y"
  define m where "m = nat (\<lceil>z\<rceil> - 1)"
  define k where "k = floorlog 2 m"
  from False assms have z: "1 < z" by (simp add: z_def)
  then have c: "2 \<le> \<lceil>z\<rceil>" by linarith
  have rm: "real m = of_int \<lceil>z\<rceil> - 1"
    using c by (simp add: m_def)
  have m: "0 < m" "real m < z" "z \<le> real m + 1"
    using c ceiling_correct [of z] by (simp_all add: rm) (simp add: m_def)
  from floorlog_bounds [of m 2] m(1) have b: "2 ^ (k - 1) \<le> m" "m < 2 ^ k"
    by (simp_all add: k_def)
  from m(1) have k: "0 < k"
    by (simp add: k_def floorlog_def)
  have e: "exponent y = - int k"
    using False by (simp add: exponent_def z_def m_def k_def)
  have y: "y = 1 / z" using assms by (simp add: z_def)
  have "m + 1 \<le> 2 ^ k" using b(2) by simp
  from of_nat_mono [OF this, where 'a = real] have "real m + 1 \<le> 2 ^ k" by simp
  with m(3) have zk: "z \<le> 2 ^ k" by linarith
  have "(2::real) ^ (k - 1) \<le> real m"
    using of_nat_mono [OF b(1), where 'a = real] by simp
  with m(2) have zl: "2 ^ (k - 1) < z" by linarith
  have p1: "2 powi (exponent y) = 1 / (2::real) ^ k"
    by (simp add: e power_int_minus inverse_eq_divide)
  have "1 / (2::real) ^ k \<le> 1 / z"
    using zk z by (intro divide_left_mono) simp_all
  then have lo: "2 powi (exponent y) \<le> y"
    using p1 y by linarith
  have "exponent y + 1 = - int (k - 1)" using e k by simp
  then have p2: "2 powi (exponent y + 1) = 1 / (2::real) ^ (k - 1)"
    by (simp add: power_int_minus inverse_eq_divide)
  have "1 / z < 1 / (2::real) ^ (k - 1)"
    using zl z by (intro divide_strict_left_mono mult_pos_pos) simp_all
  then have hi: "y < 2 powi (exponent y + 1)"
    using p2 y by linarith
  from lo hi show ?thesis ..
qed

lemma powi_less_imp:
  assumes "(2::real) powi a < 2 powi b"
  shows "a < b"
proof (rule ccontr)
  assume "\<not> a < b"
  then have "b \<le> a" by simp
  then have "(2::real) powi b \<le> 2 powi a" by (rule power_int_increasing) simp
  with assms show False by simp
qed

lemma exponent_eqI:
  assumes "2 powi e \<le> y" and "y < 2 powi (e + 1)"
  shows "exponent y = e"
proof -
  have p: "0 < y" using assms(1) by (rule less_le_trans [rotated]) simp
  from exponent_bounds [OF p] have b: "2 powi (exponent y) \<le> y" "y < 2 powi (exponent y + 1)"
    by simp_all
  have "2 powi e < (2::real) powi (exponent y + 1)" using assms(1) b(2) by simp
  then have 1: "e < exponent y + 1" by (rule powi_less_imp)
  have "2 powi (exponent y) < (2::real) powi (e + 1)" using assms(2) b(1) by simp
  then have 2: "exponent y < e + 1" by (rule powi_less_imp)
  from 1 2 show ?thesis by simp
qed

lemma roundEven_of_int [simp]: "roundEven (of_int n) = n"
  by (simp add: roundEven_def)

lemma roundDouble_eqI:
  assumes "2 powi e \<le> \<bar>x\<bar>" and "\<bar>x\<bar> < 2 powi (e + 1)"
    and "roundEven (x / 2 powi (e - 52)) = n"
  shows "roundDouble x = 2 powi (e - 52) * of_int n"
proof -
  have "0 < \<bar>x\<bar>" using assms(1) by (rule less_le_trans [rotated]) simp
  then have "x \<noteq> 0" by simp
  moreover have "exponent \<bar>x\<bar> = e" using assms(1,2) by (rule exponent_eqI)
  ultimately show ?thesis using assms(3) by (simp add: roundDouble_def Let_def)
qed

lemma roundDouble_representable:
  assumes "\<bar>n\<bar> < 2 ^ 53"
  shows "roundDouble (of_int n * 2 powi s) = of_int n * 2 powi s"
proof (cases "n = 0")
  case True
  then show ?thesis by (simp add: roundDouble_def)
next
  case False
  define x :: real where "x = of_int n * 2 powi s"
  define e where "e = exponent \<bar>x\<bar>"
  have x0: "x \<noteq> 0" using False by (simp add: x_def)
  then have b: "2 powi e \<le> \<bar>x\<bar>" "\<bar>x\<bar> < 2 powi (e + 1)"
    using exponent_bounds [of "\<bar>x\<bar>"] by (simp_all add: e_def)
  have ax: "\<bar>x\<bar> = of_int \<bar>n\<bar> * 2 powi s"
    by (simp add: x_def abs_mult)
  have "of_int \<bar>n\<bar> < (2::real) ^ 53" using assms by (metis of_int_less_iff of_int_numeral of_int_power)
  then have "\<bar>x\<bar> < 2 ^ 53 * 2 powi s" by (simp add: ax)
  also have "\<dots> = 2 powi (53 + s)" by (simp add: power_int_add)
  finally have "2 powi e < (2::real) powi (53 + s)" using b(1) by simp
  then have "e < 53 + s" by (rule powi_less_imp)
  then have es: "e - 52 \<le> s" by simp
  define j where "j = nat (s - (e - 52))"
  have s: "s = (e - 52) + int j" using es by (simp add: j_def)
  have q: "x / 2 powi (e - 52) = of_int (n * 2 ^ j)"
    by (simp add: x_def s power_int_add)
  have "roundDouble x = 2 powi (e - 52) * of_int (roundEven (x / 2 powi (e - 52)))"
    using x0 by (simp add: roundDouble_def e_def Let_def)
  also have "\<dots> = 2 powi (e - 52) * of_int (n * 2 ^ j)"
    unfolding q roundEven_of_int ..
  also have "\<dots> = x" by (simp add: x_def s power_int_add)
  finally show ?thesis by (simp add: x_def)
qed

lemma roundDouble_0 [simp]: "roundDouble 0 = 0"
  by (simp add: roundDouble_def)

lemma roundDouble_1 [simp]: "roundDouble 1 = 1"
  using roundDouble_representable [of 1 0] by simp

lemma roundDouble_nine_tenths: "roundDouble (9 / 10) = 8106479329266893 / 9007199254740992"
proof -
  have "roundDouble (9 / 10) = 2 powi (- 1 - 52) * real_of_int 8106479329266893"
    by (rule roundDouble_eqI) (simp_all add: roundEven_def Let_def)
  then show ?thesis by simp
qed

lemma roundDouble_nine_tenths_fixed:
  "roundDouble (8106479329266893 / 9007199254740992) = 8106479329266893 / 9007199254740992"
proof -
  have "roundDouble (real_of_int 8106479329266893 * 2 powi (- 53)) =
        real_of_int 8106479329266893 * 2 powi (- 53)"
    by (rule roundDouble_representable) simp
  then show ?thesis by simp
qed

lemma roundDouble_one_tenth: "roundDouble (1 / 10) = 3602879701896397 / 36028797018963968"
proof -
  have "roundDouble (1 / 10) = 2 powi (- 4 - 52) * real_of_int 7205759403792794"
    by (rule roundDouble_eqI) (simp_all add: roundEven_def Let_def)
  then show ?thesis by simp
qed






section \<open>Similarity\<close>



lemma loop_shift:
  "foldl f s [0..<Suc n] = foldl (\<lambda>d i. f d (Suc i)) (f s 0) [0..<n]"
proof -
  have "[0..<Suc n] = 0 # map Suc [0..<n]"
    by (simp add: upt_conv_Cons map_Suc_upt del: upt_Suc)
  then show ?thesis
    by (simp add: foldl_map del: upt_Suc)
qed

lemma loop_zip:
  assumes "length a = length b"
  shows "foldl (\<lambda>dot i. rnd (dot + rnd (a ! i * b ! i))) s [0..<length a] =
         foldl (\<lambda>dot xy. rnd (dot + rnd (fst xy * snd xy))) s (zip a b)"
  using assms
proof (induction a b arbitrary: s rule: list_induct2)
  case Nil
  then show ?case by simp
next
  case (Cons x xs y ys)
  have "foldl (\<lambda>dot i. rnd (dot + rnd ((x # xs) ! i * (y # ys) ! i))) s [0..<length (x # xs)] =
        foldl (\<lambda>dot i. rnd (dot + rnd (xs ! i * ys ! i))) (rnd (s + rnd (x * y))) [0..<length xs]"
    by (simp add: loop_shift del: upt_Suc)
  then show ?case by (simp add: Cons.IH del: upt_Suc)
qed

lemma cosineSimilarity_zip:
  assumes "length a = length b"
  shows "cosineSimilarity (Some a) (Some b) =
         foldl (\<lambda>dot xy. roundDouble (dot + roundDouble (fst xy * snd xy))) 0 (zip a b)"
  using assms loop_zip [OF assms, of roundDouble 0]
  by (simp add: cosineSimilarity_def cosineSimilarityIn_def)








text \<open>The scores of the three example documents against the query vector \<open>[1, 0]\<close>.\<close>

lemma example_scores:
  "cosineSimilarity (Some [1, 0]) (Some [1, 0]) = 1"
  "cosineSimilarity (Some [1, 0]) (Some [0, 1]) = 0"
  "cosineSimilarity (Some [1, 0])
     (Some [8106479329266893 / 9007199254740992, 3602879701896397 / 36028797018963968]) =
   8106479329266893 / 9007199254740992"
  by (simp_all add: cosineSimilarity_zip roundDouble_nine_tenths_fixed)






section \<open>Semantic search and the threshold\<close>

lemma search_length:
  "length (search sem query prompts topK) =
     (if \<not> isLoaded sem then 0
      else case embed sem query of
        None \<Rightarrow> 0
      | Some qv \<Rightarrow>
          min topK (length (filter (\<lambda>r. minScore sem \<le> snd r)
            (map (\<lambda>p. (prompt_id p, cosineSimilarity (Some qv) (embedding p)))
               (filter (\<lambda>p. embedding p \<noteq> None) prompts)))))"
  by (simp add: search_def length_js_sort Let_def min.commute split: option.splits)

lemma search_sorted:
  assumes "isLoaded sem" and "embed sem query = Some qv"
  shows "search sem query prompts topK =
     take topK (sort_key (\<lambda>r. - snd r)
       (filter (\<lambda>r. minScore sem \<le> snd r)
          (map (\<lambda>p. (prompt_id p, cosineSimilarity (Some qv) (embedding p)))
             (filter (\<lambda>p. embedding p \<noteq> None) prompts))))"
  using assms by (simp add: search_def js_sort_key Let_def del: filter_map)

lemma search_above:
  "r \<in> set (search sem query prompts topK) \<Longrightarrow> minScore sem \<le> snd r"
  by (auto simp: search_def Let_def set_js_sort split: if_splits option.splits dest!: in_set_takeD)

text \<open>
  C8. For a fixed model, query and document list, raising the threshold from \<open>t1\<close> to
  \<open>t2 > t1\<close> never makes \<open>search\<close> return more results.
\<close>

theorem threshold_monotone:
  assumes "t1 < t2"
  shows "length (search (setThreshold sem t2) query prompts topK)
       \<le> length (search (setThreshold sem t1) query prompts topK)"
proof -
  have mono: "length (filter (\<lambda>r. t2 \<le> snd r) xs) \<le> length (filter (\<lambda>r. t1 \<le> snd r) xs)"
    for xs :: "(string \<times> real) list"
    using assms by (induction xs) auto
  have e: "embed (setThreshold sem t) query = embed sem query" for t
    by (simp add: embed_def setThreshold_def)
  have l: "isLoaded (setThreshold sem t) = isLoaded sem" "minScore (setThreshold sem t) = t" for t
    by (simp_all add: setThreshold_def)
  show ?thesis
  proof (cases "embed sem query")
    case None
    then show ?thesis by (simp add: search_length e l)
  next
    case (Some qv)
    then show ?thesis
      using mono [of "map (\<lambda>p. (prompt_id p, cosineSimilarity (Some qv) (embedding p)))
               (filter (\<lambda>p. embedding p \<noteq> None) prompts)"]
      by (auto simp add: search_length e l min_le_iff_disj)
  qed
qed

theorem threshold_monotone_witness:
  "(1 / 4 :: real) < 19 / 20
   \<and> length (search (setThreshold (semReady 0) (19 / 20)) ''query'' vecDocs 50)
       \<le> length (search (setThreshold (semReady 0) (1 / 4)) ''query'' vecDocs 50)"
proof -
  have h: "(1 / 4 :: real) < 19 / 20" by simp
  from threshold_monotone [OF h] h show ?thesis by blast
qed

text \<open>
  C1 (amended). In semantic mode \<open>search\<close> returns entries only for documents that carry
  an embedding and score at or above the threshold, sorted by descending score with equal
  scores in their original order, cut to the first \<open>topK\<close> (50 in the application). The
  list the application returns keeps every document that passes the exact filters: it is
  those documents in a stable sort by descending search score, a document without an entry
  in the search results counting as score 0. A document below the threshold is therefore
  kept, at the place score 0 gives it, instead of being left out.
\<close>

theorem semantic_ranking:
  assumes "f_search (st_filter st) \<noteq> []" and "isLoaded (semantic st)" and "semanticMode st"
    and "embed (semantic st) (f_search (st_filter st)) = Some qv"
  shows "search (semantic st) (f_search (st_filter st)) prompts topK =
           take topK (sort_key (\<lambda>r. - snd r)
             (filter (\<lambda>r. minScore (semantic st) \<le> snd r)
                (map (\<lambda>p. (prompt_id p, cosineSimilarity (Some qv) (embedding p)))
                   (filter (\<lambda>p. embedding p \<noteq> None) prompts))))
       \<and> (\<forall>r \<in> set (search (semantic st) (f_search (st_filter st)) prompts topK).
             minScore (semantic st) \<le> snd r)
       \<and> filterAndSortPrompts h st =
           sort_key (\<lambda>p. - scoreOf (search (semantic st) (f_search (st_filter st)) (st_prompts st) 50)
                                 (prompt_id p))
             (filterPrompts (st_prompts st) (st_filter st))
       \<and> set (filterAndSortPrompts h st) = set (filterPrompts (st_prompts st) (st_filter st))"
proof (intro conjI)
  show "search (semantic st) (f_search (st_filter st)) prompts topK =
           take topK (sort_key (\<lambda>r. - snd r)
             (filter (\<lambda>r. minScore (semantic st) \<le> snd r)
                (map (\<lambda>p. (prompt_id p, cosineSimilarity (Some qv) (embedding p)))
                   (filter (\<lambda>p. embedding p \<noteq> None) prompts))))"
    using assms(2,4) by (rule search_sorted)
  show "\<forall>r \<in> set (search (semantic st) (f_search (st_filter st)) prompts topK).
             minScore (semantic st) \<le> snd r"
    by (blast intro: search_above)
  show "filterAndSortPrompts h st =
           sort_key (\<lambda>p. - scoreOf (search (semantic st) (f_search (st_filter st)) (st_prompts st) 50)
                                 (prompt_id p))
             (filterPrompts (st_prompts st) (st_filter st))"
    using assms(1-3) by (simp add: filterAndSortPrompts_def Let_def js_sort_key filterPrompts_def)
  show "set (filterAndSortPrompts h st) = set (filterPrompts (st_prompts st) (st_filter st))"
    using assms(1-3) by (simp add: filterAndSortPrompts_def Let_def set_js_sort filterPrompts_def)
qed

lemma semanticState_search:
  "search (semantic semanticState) (f_search (st_filter semanticState)) vecDocs 50 =
     [(''doc1'', 1), (''doc3'', 8106479329266893 / 9007199254740992)]"
  by (simp add: search_def semanticState_def semReady_def noFilter_def embed_def vecDocs_def
      doc_def roundDouble_nine_tenths roundDouble_one_tenth example_scores js_sort_def)

theorem semantic_ranking_witness:
  "f_search (st_filter semanticState) \<noteq> [] \<and> isLoaded (semantic semanticState)
   \<and> semanticMode semanticState
   \<and> embed (semantic semanticState) (f_search (st_filter semanticState)) = Some [1, 0]
   \<and> search (semantic semanticState) (f_search (st_filter semanticState)) vecDocs 50 =
       [(''doc1'', 1), (''doc3'', roundDouble (9 / 10))]
   \<and> filterAndSortPrompts host0 semanticState =
       [doc ''doc1'' [] ''live'' [] (Some [1, 0]),
        doc ''doc3'' [] ''live'' [] (Some [roundDouble (9 / 10), roundDouble (1 / 10)]),
        doc ''doc2'' [] ''live'' [] (Some [0, 1])]"
proof -
  have h1: "f_search (st_filter semanticState) \<noteq> []"
    by (simp add: semanticState_def noFilter_def)
  have h2: "isLoaded (semantic semanticState)"
    by (simp add: semanticState_def semReady_def)
  have h3: "semanticMode semanticState"
    by (simp add: semanticState_def)
  have h4: "embed (semantic semanticState) (f_search (st_filter semanticState)) = Some [1, 0]"
    by (simp add: semanticState_def semReady_def noFilter_def embed_def)
  have s: "take 50 (sort_key (\<lambda>r. - snd r)
             (filter (\<lambda>r. minScore (semantic semanticState) \<le> snd r)
                (map (\<lambda>p. (prompt_id p, cosineSimilarity (Some [1, 0]) (embedding p)))
                   (filter (\<lambda>p. embedding p \<noteq> None) vecDocs)))) =
           [(''doc1'', 1), (''doc3'', roundDouble (9 / 10))]"
    by (simp add: semanticState_def semReady_def vecDocs_def doc_def roundDouble_nine_tenths
        roundDouble_one_tenth example_scores)
  have p: "st_prompts semanticState = vecDocs"
    by (simp add: semanticState_def)
  have f: "sort_key (\<lambda>p. - scoreOf (search (semantic semanticState)
                 (f_search (st_filter semanticState)) (st_prompts semanticState) 50) (prompt_id p))
             (filterPrompts (st_prompts semanticState) (st_filter semanticState)) =
       [doc ''doc1'' [] ''live'' [] (Some [1, 0]),
        doc ''doc3'' [] ''live'' [] (Some [roundDouble (9 / 10), roundDouble (1 / 10)]),
        doc ''doc2'' [] ''live'' [] (Some [0, 1])]"
    unfolding p semanticState_search
    by (simp add: filterPrompts_def semanticState_def noFilter_def matchesExact_def vecDocs_def
        doc_def scoreOf_def)
  note c = semantic_ranking [where prompts = vecDocs and topK = 50 and h = host0, OF h1 h2 h3 h4]
  have r1: "search (semantic semanticState) (f_search (st_filter semanticState)) vecDocs 50 =
       [(''doc1'', 1), (''doc3'', roundDouble (9 / 10))]"
    using c [THEN conjunct1] s by (rule trans)
  have r3: "filterAndSortPrompts host0 semanticState =
       [doc ''doc1'' [] ''live'' [] (Some [1, 0]),
        doc ''doc3'' [] ''live'' [] (Some [roundDouble (9 / 10), roundDouble (1 / 10)]),
        doc ''doc2'' [] ''live'' [] (Some [0, 1])]"
    using c [THEN conjunct2, THEN conjunct2, THEN conjunct1] f by (rule trans)
  show ?thesis
    by (intro conjI h1 h2 h3 h4 r1 r3)
qed

text \<open>
  The scenario of the specification, run through the application: threshold 0.25, query
  vector \<open>[1, 0]\<close>, documents with vectors \<open>[1, 0]\<close>, \<open>[0, 1]\<close> and \<open>[0.9, 0.1]\<close>. The
  second document scores 0, below the threshold, and is returned in last place.
\<close>

theorem semantic_threshold_counterexample:
  "filterAndSortPrompts host0 semanticState =
     [doc ''doc1'' [] ''live'' [] (Some [1, 0]),
      doc ''doc3'' [] ''live'' [] (Some [roundDouble (9 / 10), roundDouble (1 / 10)]),
      doc ''doc2'' [] ''live'' [] (Some [0, 1])]
   \<and> cosineSimilarity (Some [1, 0]) (Some [0, 1]) < minScore (semantic semanticState)"
proof -
  have m: "minScore (semantic semanticState) = 1 / 4"
    by (simp add: semanticState_def semReady_def)
  have p: "st_prompts semanticState = vecDocs"
    by (simp add: semanticState_def)
  have "filterAndSortPrompts host0 semanticState =
     [doc ''doc1'' [] ''live'' [] (Some [1, 0]),
      doc ''doc3'' [] ''live'' [] (Some [roundDouble (9 / 10), roundDouble (1 / 10)]),
      doc ''doc2'' [] ''live'' [] (Some [0, 1])]"
    unfolding filterAndSortPrompts_def Let_def p semanticState_search
    by (simp add: semanticState_def semReady_def noFilter_def matchesExact_def vecDocs_def
        doc_def scoreOf_def js_sort_def)
  then show ?thesis
    by (simp add: m example_scores)
qed


section \<open>Exact filters and the two ranking modes\<close>

text \<open>
  C2. Whatever the ranking mode, the sort key and the state of the model, every document
  the application returns is one of the prompts and passes each active filter (category,
  client, status; a filter is active when its value is not empty). With an empty query the
  returned documents are exactly the prompts that pass all active filters.
\<close>

theorem exact_filters_decide_membership:
  "(p \<in> set (filterAndSortPrompts h st) \<longrightarrow>
      p \<in> set (st_prompts st)
      \<and> (f_category (st_filter st) = [] \<or> category p = f_category (st_filter st))
      \<and> (f_client (st_filter st) = [] \<or> client p = f_client (st_filter st))
      \<and> (f_status (st_filter st) = [] \<or> status p = f_status (st_filter st)))
   \<and> (f_search (st_filter st) = [] \<longrightarrow>
        set (filterAndSortPrompts h st) =
          {p \<in> set (st_prompts st).
             (f_category (st_filter st) = [] \<or> category p = f_category (st_filter st))
           \<and> (f_client (st_filter st) = [] \<or> client p = f_client (st_filter st))
           \<and> (f_status (st_filter st) = [] \<or> status p = f_status (st_filter st))})"
  by (auto simp: filterAndSortPrompts_def set_js_sort matchesExact_def Let_def toLowerCase_def
      split: if_splits)

theorem exact_filters_decide_membership_witness:
  "doc ''a'' ''X'' ''live'' [] None \<in> set (filterAndSortPrompts host0 categoryState)
   \<and> category (doc ''a'' ''X'' ''live'' [] None) = f_category (st_filter categoryState)
   \<and> f_search (st_filter categoryState) = []
   \<and> set (filterAndSortPrompts host0 categoryState) =
        {doc ''a'' ''X'' ''live'' [] None, doc ''c'' ''X'' ''draft'' [] None}"
proof -
  have e: "filterAndSortPrompts host0 categoryState =
      [doc ''a'' ''X'' ''live'' [] None, doc ''c'' ''X'' ''draft'' [] None]"
    by (simp add: filterAndSortPrompts_def categoryState_def noFilter_def abcDocs_def doc_def
        matchesExact_def toLowerCase_def js_sort_def sortComparator_def host0_def
        SemanticSearch_new_def)
  have m: "doc ''a'' ''X'' ''live'' [] None \<in> set (filterAndSortPrompts host0 categoryState)"
    by (simp add: e)
  have q: "f_search (st_filter categoryState) = []"
    by (simp add: categoryState_def noFilter_def)
  have k: "f_category (st_filter categoryState) \<noteq> []"
    by (simp add: categoryState_def noFilter_def)
  note c = exact_filters_decide_membership [of "doc ''a'' ''X'' ''live'' [] None" host0 categoryState]
  have c1: "category (doc ''a'' ''X'' ''live'' [] None) = f_category (st_filter categoryState)"
    using c m k by blast
  have c2: "set (filterAndSortPrompts host0 categoryState) =
        {doc ''a'' ''X'' ''live'' [] None, doc ''c'' ''X'' ''draft'' [] None}"
    by (simp add: e)
  show ?thesis
    by (intro conjI m c1 q c2)
qed

lemma keyword_branch:
  assumes "\<not> (f_search (st_filter st) \<noteq> [] \<and> isLoaded (semantic st) \<and> semanticMode st)"
  shows "filterAndSortPrompts h st =
     js_sort (sortComparator h
                (if f_sort (st_filter st) = [] then ''date-desc'' else f_sort (st_filter st)))
       (filter (\<lambda>p.
          sublist (toLowerCase (f_search (st_filter st)))
            (toLowerCase (title p @ description p @ prompt_text p @ tags p))
          \<and> (f_category (st_filter st) = [] \<or> category p = f_category (st_filter st))
          \<and> (f_client (st_filter st) = [] \<or> client p = f_client (st_filter st))
          \<and> (f_status (st_filter st) = [] \<or> status p = f_status (st_filter st)))
        (st_prompts st))"
proof -
  have pred: "(\<lambda>p. let searchSource =
                        toLowerCase (title p @ description p @ prompt_text p @ tags p);
                      matchesSearch =
                        js_includes searchSource (toLowerCase (f_search (st_filter st)))
                  in matchesSearch \<and> matchesExact (st_filter st) p) =
        (\<lambda>p. sublist (toLowerCase (f_search (st_filter st)))
            (toLowerCase (title p @ description p @ prompt_text p @ tags p))
          \<and> (f_category (st_filter st) = [] \<or> category p = f_category (st_filter st))
          \<and> (f_client (st_filter st) = [] \<or> client p = f_client (st_filter st))
          \<and> (f_status (st_filter st) = [] \<or> status p = f_status (st_filter st)))"
    by (auto simp: Let_def js_includes_sublist matchesExact_def)
  have mode: "(if f_sort (st_filter st) \<noteq> [] then f_sort (st_filter st) else ''date-desc'') =
        (if f_sort (st_filter st) = [] then ''date-desc'' else f_sort (st_filter st))"
    by simp
  have "filterAndSortPrompts h st =
     js_sort (sortComparator h
                (if f_sort (st_filter st) \<noteq> [] then f_sort (st_filter st) else ''date-desc''))
       (filter (\<lambda>p. let searchSource =
                        toLowerCase (title p @ description p @ prompt_text p @ tags p);
                      matchesSearch =
                        js_includes searchSource (toLowerCase (f_search (st_filter st)))
                  in matchesSearch \<and> matchesExact (st_filter st) p) (st_prompts st))"
    using assms unfolding filterAndSortPrompts_def Let_def by (simp only: if_False)
  then show ?thesis
    unfolding pred mode .
qed

lemma fallbackState_keyword:
  "filterAndSortPrompts host0 (fallbackState\<lparr>semanticMode := False\<rparr>) =
     [doc ''a'' ''X'' ''live'' [] None]"
  by code_simp

text \<open>
  C3. When semantic mode is requested and the model is not loaded, the application
  returns what it returns in keyword mode for the same prompts, query and filters: the
  prompts in whose lower-cased title, description, body text and tags, put together, the
  lower-cased query occurs and that pass every active exact filter, sorted by the sort
  key. \<open>search\<close> itself answers with the empty list; neither has a failing branch.
\<close>

theorem semantic_not_loaded_falls_back:
  assumes "\<not> isLoaded (semantic st)"
  shows "filterAndSortPrompts h (st\<lparr>semanticMode := True\<rparr>) =
           filterAndSortPrompts h (st\<lparr>semanticMode := False\<rparr>)
       \<and> filterAndSortPrompts h (st\<lparr>semanticMode := True\<rparr>) =
           js_sort (sortComparator h
                      (if f_sort (st_filter st) = [] then ''date-desc''
                       else f_sort (st_filter st)))
             (filter (\<lambda>p.
                sublist (toLowerCase (f_search (st_filter st)))
                  (toLowerCase (title p @ description p @ prompt_text p @ tags p))
                \<and> (f_category (st_filter st) = [] \<or> category p = f_category (st_filter st))
                \<and> (f_client (st_filter st) = [] \<or> client p = f_client (st_filter st))
                \<and> (f_status (st_filter st) = [] \<or> status p = f_status (st_filter st)))
              (st_prompts st))
       \<and> set (filterAndSortPrompts h (st\<lparr>semanticMode := True\<rparr>)) =
           {p \<in> set (st_prompts st).
              sublist (toLowerCase (f_search (st_filter st)))
                (toLowerCase (title p @ description p @ prompt_text p @ tags p))
              \<and> (f_category (st_filter st) = [] \<or> category p = f_category (st_filter st))
              \<and> (f_client (st_filter st) = [] \<or> client p = f_client (st_filter st))
              \<and> (f_status (st_filter st) = [] \<or> status p = f_status (st_filter st))}
       \<and> search (semantic st) query prompts topK = []"
proof -
  have n: "\<not> (f_search (st_filter (st\<lparr>semanticMode := True\<rparr>)) \<noteq> []
              \<and> isLoaded (semantic (st\<lparr>semanticMode := True\<rparr>))
              \<and> semanticMode (st\<lparr>semanticMode := True\<rparr>))"
    using assms by simp
  have e: "filterAndSortPrompts h (st\<lparr>semanticMode := True\<rparr>) =
           filterAndSortPrompts h (st\<lparr>semanticMode := False\<rparr>)"
    using assms by (simp add: filterAndSortPrompts_def)
  have k: "filterAndSortPrompts h (st\<lparr>semanticMode := True\<rparr>) =
           js_sort (sortComparator h
                      (if f_sort (st_filter st) = [] then ''date-desc''
                       else f_sort (st_filter st)))
             (filter (\<lambda>p.
                sublist (toLowerCase (f_search (st_filter st)))
                  (toLowerCase (title p @ description p @ prompt_text p @ tags p))
                \<and> (f_category (st_filter st) = [] \<or> category p = f_category (st_filter st))
                \<and> (f_client (st_filter st) = [] \<or> client p = f_client (st_filter st))
                \<and> (f_status (st_filter st) = [] \<or> status p = f_status (st_filter st)))
              (st_prompts st))"
    using keyword_branch [OF n, of h] by simp
  have m: "set (filterAndSortPrompts h (st\<lparr>semanticMode := True\<rparr>)) =
           {p \<in> set (st_prompts st).
              sublist (toLowerCase (f_search (st_filter st)))
                (toLowerCase (title p @ description p @ prompt_text p @ tags p))
              \<and> (f_category (st_filter st) = [] \<or> category p = f_category (st_filter st))
              \<and> (f_client (st_filter st) = [] \<or> client p = f_client (st_filter st))
              \<and> (f_status (st_filter st) = [] \<or> status p = f_status (st_filter st))}"
    unfolding k set_js_sort by simp
  have s: "search (semantic st) query prompts topK = []"
    using assms by (simp add: search_def)
  show ?thesis
    by (intro conjI e k m s)
qed

theorem semantic_not_loaded_falls_back_witness:
  "\<not> isLoaded (semantic fallbackState)
   \<and> semanticMode fallbackState
   \<and> f_search (st_filter fallbackState) = ''A''
   \<and> f_category (st_filter fallbackState) = ''X''
   \<and> filterAndSortPrompts host0 fallbackState = [doc ''a'' ''X'' ''live'' [] None]
   \<and> search (semantic fallbackState) ''A'' abcDocs 50 = []"
proof -
  have h: "\<not> isLoaded (semantic fallbackState)"
    by (simp add: fallbackState_def SemanticSearch_new_def)
  have a: "semanticMode fallbackState" "f_search (st_filter fallbackState) = ''A''"
    "f_category (st_filter fallbackState) = ''X''"
    by (simp_all add: fallbackState_def noFilter_def)
  have t: "fallbackState\<lparr>semanticMode := True\<rparr> = fallbackState"
    by (simp add: fallbackState_def)
  note c = semantic_not_loaded_falls_back [OF h, where h = host0 and query = "''A''"
      and prompts = abcDocs and topK = 50]
  have "filterAndSortPrompts host0 (fallbackState\<lparr>semanticMode := True\<rparr>) =
        [doc ''a'' ''X'' ''live'' [] None]"
    using c [THEN conjunct1] fallbackState_keyword by (rule trans)
  then have r: "filterAndSortPrompts host0 fallbackState = [doc ''a'' ''X'' ''live'' [] None]"
    unfolding t .
  have s: "search (semantic fallbackState) ''A'' abcDocs 50 = []"
    using c by blast
  show ?thesis
    by (intro conjI h a r s)
qed


section \<open>Keyword matching\<close>

text \<open>\<open>keywordSearch\<close> of the service module matches a document exactly when the
  lower-cased query occurs in one of its five lower-cased text fields.\<close>

lemma keywordSearch_matches:
  assumes "query \<noteq> []"
  shows "p \<in> set (keywordSearch prompts query) \<longleftrightarrow>
           p \<in> set prompts \<and>
           (\<exists>field \<in> {title p, description p, prompt_text p, tags p, p_notes p}.
              sublist (toLowerCase query) (toLowerCase field))"
  using assms by (auto simp: keywordSearch_def Let_def js_includes_sublist)

text \<open>
  C4. In keyword mode a document should match when the query occurs, ignoring case, in
  one of title, description, body text, tags or notes. \<open>keywordSearch\<close> does so; the
  keyword branch of the application does not look at the notes: a prompt whose notes are
  \<open>Internal SECRET\<close> is found by \<open>keywordSearch\<close> for the query \<open>secret\<close> and is missing from
  the application's list.
\<close>

theorem keyword_mode_misses_notes:
  "keywordSearch [notesDoc] ''secret'' = [notesDoc]
   \<and> filterAndSortPrompts host0 keywordState = []"
  by code_simp


section \<open>Duplicating a prompt\<close>

text \<open>
  C10 (amended). The copy has the generated id, no versions, no embedding and status
  \<open>draft\<close>; its title is \<open>COPY\<close> and a space before the title of the original when that
  title is not empty, and \<open>COPY Untitled\<close> when it is empty; description, body text, tags,
  notes, category and client are those of the original.
\<close>

theorem duplicatePrompt_fields:
  "prompt_id (duplicatePrompt p generateId now) = generateId ()
   \<and> versions (duplicatePrompt p generateId now) = []
   \<and> embedding (duplicatePrompt p generateId now) = None
   \<and> status (duplicatePrompt p generateId now) = ''draft''
   \<and> (title p \<noteq> [] \<longrightarrow> title (duplicatePrompt p generateId now) = ''COPY '' @ title p)
   \<and> (title p = [] \<longrightarrow> title (duplicatePrompt p generateId now) = ''COPY Untitled'')
   \<and> description (duplicatePrompt p generateId now) = description p
   \<and> prompt_text (duplicatePrompt p generateId now) = prompt_text p
   \<and> tags (duplicatePrompt p generateId now) = tags p
   \<and> p_notes (duplicatePrompt p generateId now) = p_notes p
   \<and> category (duplicatePrompt p generateId now) = category p
   \<and> client (duplicatePrompt p generateId now) = client p"
  by (simp add: duplicatePrompt_def)

theorem duplicatePrompt_fields_witness:
  "title draftDoc \<noteq> []
   \<and> title (duplicatePrompt draftDoc (\<lambda>u. ''n1'') ''2026-11-03'') = ''COPY Draft''
   \<and> title (doc [] [] ''live'' [] None) = []
   \<and> title (duplicatePrompt (doc [] [] ''live'' [] None) (\<lambda>u. ''n1'') ''2026-11-03'') =
        ''COPY Untitled''"
proof -
  have t1: "title draftDoc = ''Draft''"
    by (simp add: draftDoc_def)
  have t2: "title (doc [] [] ''live'' [] None) = []"
    by (simp add: doc_def)
  note c1 = duplicatePrompt_fields [of draftDoc "\<lambda>u. ''n1''" "''2026-11-03''"]
  note c2 = duplicatePrompt_fields [of "doc [] [] ''live'' [] None" "\<lambda>u. ''n1''" "''2026-11-03''"]
  have r1: "title (duplicatePrompt draftDoc (\<lambda>u. ''n1'') ''2026-11-03'') = ''COPY Draft''"
    using c1 t1 by simp
  have r2: "title (duplicatePrompt (doc [] [] ''live'' [] None) (\<lambda>u. ''n1'') ''2026-11-03'') =
        ''COPY Untitled''"
    using c2 t2 by blast
  show ?thesis
    using t1 t2 r1 r2 by simp
qed

text \<open>A prompt whose title is empty: the copy is titled \<open>COPY Untitled\<close>, which is not
  \<open>COPY\<close> and a space before the empty title.\<close>

theorem duplicatePrompt_untitled_counterexample:
  "title (duplicatePrompt (doc [] [] ''live'' [] None) (\<lambda>u. ''n1'') ''2026-11-03'')
     \<noteq> ''COPY '' @ title (doc [] [] ''live'' [] None)"
  by (simp add: duplicatePrompt_def doc_def)


section \<open>The vault: saving, renaming and deleting\<close>

lemma fileHasId_Json [simp]:
  "fileHasId i (n, Json j) \<longleftrightarrow> endsWith n ''.json'' \<and> json_id j = i"
  by (simp add: fileHasId_def)

lemma fileHasId_endsWith: "fileHasId i e \<Longrightarrow> endsWith (fst e) ''.json''"
  by (simp add: fileHasId_def)

lemma endsWith_promptFileName [simp]: "endsWith (promptFileName p) ''.json''"
  by (simp add: endsWith_def promptFileName_def Let_def suffix_def)

lemma filter_fileHasId_delete:
  "filter (fileHasId i) (AList.delete old d) =
     filter (\<lambda>e. fst e \<noteq> old) (filter (fileHasId i) d)"
  by (induction d) (auto simp: AList.delete_eq)

lemma filter_fileHasId_update:
  assumes "distinct (map fst d)"
    and "\<forall>e \<in> set (filter (fileHasId i) d). fst e = n"
    and "fileHasId i (n, Json j)"
  shows "filter (fileHasId i) (AList.update n (Json j) d) = [(n, Json j)]"
  using assms
proof (induction d)
  case Nil
  then show ?case by simp
next
  case (Cons e d)
  show ?case
  proof (cases "fst e = n")
    case True
    have "filter (fileHasId i) d = []"
    proof (rule ccontr)
      assume "filter (fileHasId i) d \<noteq> []"
      then obtain e' where e': "e' \<in> set d" "fileHasId i e'"
        by (auto simp: filter_empty_conv)
      with Cons.prems(2) have "fst e' = n" by simp
      moreover have "fst e' \<in> fst ` set d" using e'(1) by (rule imageI)
      ultimately show False using True Cons.prems(1) by simp
    qed
    with True Cons.prems(3) show ?thesis by (cases e) simp
  next
    case False
    with Cons.prems(2) have "\<not> fileHasId i e" by auto
    with False Cons show ?thesis by (cases e) auto
  qed
qed

lemma removeOld_distinct:
  "distinct (map fst dir) \<Longrightarrow> distinct (map fst (removeOld v dir i new))"
  by (auto simp: removeOld_def removeEntry_def distinct_delete split: option.splits)

lemma removeOld_files:
  assumes "\<forall>n \<in> set (filesWithId dir i). fileMap v i = Some n"
  shows "\<forall>e \<in> set (filter (fileHasId i) (removeOld v dir i new)). fst e = new"
proof (cases "fileMap v i")
  case None
  with assms have "filter (fileHasId i) dir = []"
    by (auto simp: filesWithId_def filter_empty_conv)
  with None show ?thesis by (simp add: removeOld_def)
next
  case (Some old)
  with assms have all: "\<forall>e \<in> set (filter (fileHasId i) dir). fst e = old"
    by (auto simp: filesWithId_def)
  show ?thesis
  proof (cases "old \<noteq> [] \<and> old \<noteq> new")
    case True
    show ?thesis
    proof (cases "old \<in> fst ` set dir")
      case True
      with \<open>old \<noteq> [] \<and> old \<noteq> new\<close> Some all show ?thesis
        by (auto simp: removeOld_def removeEntry_def filter_fileHasId_delete)
    next
      case False
      with all have "filter (fileHasId i) dir = []"
        by (force simp: filter_empty_conv)
      with False \<open>old \<noteq> [] \<and> old \<noteq> new\<close> Some show ?thesis
        by (simp add: removeOld_def removeEntry_def)
    qed
  next
    case False
    then consider "old = []" | "old = new" by blast
    then show ?thesis
    proof cases
      case 1
      have "filter (fileHasId i) dir = []"
      proof (rule ccontr)
        assume "filter (fileHasId i) dir \<noteq> []"
        then obtain e where e: "e \<in> set dir" "fileHasId i e"
          by (auto simp: filter_empty_conv)
        then have "e \<in> set (filter (fileHasId i) dir)" by simp
        with all 1 have "fst e = []" by blast
        with fileHasId_endsWith [OF e(2)] show False
          by (simp add: endsWith_def)
      qed
      with 1 Some show ?thesis by (simp add: removeOld_def)
    next
      case 2
      with Some all show ?thesis by (simp add: removeOld_def)
    qed
  qed
qed

lemma loadEntries_prompts:
  assumes "\<forall>e \<in> set es. endsWith (fst e) ''.json''"
  shows "filter (\<lambda>q. prompt_id q = i) (fst (snd (foldl loadEntry (v, ps, ts) es))) =
     filter (\<lambda>q. prompt_id q = i) ps @
     concat (map (\<lambda>e. case snd e of Json (PromptJson q) \<Rightarrow> [q] | _ \<Rightarrow> [])
       (filter (fileHasId i) es))"
  using assms
proof (induction es arbitrary: v ps ts)
  case Nil
  then show ?case by simp
next
  case (Cons e es)
  obtain n t where e: "e = (n, t)" by (cases e)
  from Cons.prems have n: "endsWith n ''.json''" and rest: "\<forall>e \<in> set es. endsWith (fst e) ''.json''"
    by (simp_all add: e)
  show ?case
  proof (cases t)
    case Garbage
    then show ?thesis
      using Cons.IH [OF rest] by (simp add: e loadEntry_def fileHasId_def)
  next
    case (Json j)
    then show ?thesis
      using Cons.IH [OF rest] n
      by (cases j) (simp_all add: e loadEntry_def Let_def)
  qed
qed

lemma loadAll_prompts:
  assumes "dirHandle v = Some d"
  shows "filter (\<lambda>q. prompt_id q = i) (fst (snd (loadAll v))) =
     concat (map (\<lambda>e. case snd e of Json (PromptJson q) \<Rightarrow> [q] | _ \<Rightarrow> [])
       (filter (fileHasId i) d))"
proof -
  have "filter (fileHasId i) (filter (\<lambda>entry. endsWith (fst entry) ''.json'') d) = filter (fileHasId i) d"
    by (auto simp: fileHasId_def intro: filter_cong)
  then show ?thesis
    using assms loadEntries_prompts [of "filter (\<lambda>entry. endsWith (fst entry) ''.json'') d" i "v\<lparr>fileMap := Map.empty\<rparr>" "[]" "[]"]
    by (simp add: loadAll_def)
qed

lemma endsWith_examples: "endsWith ''Draft__p1.json'' ''.json''" "endsWith ''Final__p1.json'' ''.json''"
  by code_simp+

lemma loadedVault_eq:
  "loadedVault = \<lparr>dirHandle = Some draftDir, isConnected = True,
     fileMap = [''p1'' \<mapsto> ''Draft__p1.json'']\<rparr>"
  by (simp add: loadedVault_def selectedVault_def selectDirectory_def VaultRepo_new_def
      loadAll_def draftDir_def endsWith_examples loadEntry_def draftDoc_def doc_def)

lemma promptFileName_finalDoc: "promptFileName finalDoc = ''Final__p1.json''"
  by (simp add: promptFileName_def finalDoc_def draftDoc_def doc_def safeChar_def)

text \<open>
  C5 (amended). With no directory selected, \<open>savePrompt\<close> and \<open>saveTemplate\<close> fail at
  once with the error \<open>Vault not connected\<close>; \<open>deletePrompt\<close> and \<open>deleteTemplate\<close> return
  normally and leave the repository as it was; \<open>loadAll\<close> returns no prompts and no
  templates.
\<close>

theorem vault_not_connected:
  assumes "dirHandle v = None"
  shows "savePrompt v p = Inl (Error ''Vault not connected'')
       \<and> saveTemplate v t = Inl (Error ''Vault not connected'')
       \<and> deletePrompt v i = Inr v \<and> deleteTemplate v i = Inr v
       \<and> loadAll v = (v, [], [])"
  using assms
  by (simp add: savePrompt_def saveTemplate_def deletePrompt_def deleteTemplate_def
      deleteFile_def loadAll_def)

theorem vault_not_connected_witness:
  "dirHandle VaultRepo_new = None
   \<and> savePrompt VaultRepo_new draftDoc = Inl (Error ''Vault not connected'')
   \<and> deletePrompt VaultRepo_new ''p1'' = Inr VaultRepo_new"
proof -
  have h: "dirHandle VaultRepo_new = None"
    by (simp add: VaultRepo_new_def)
  from vault_not_connected [OF h, of draftDoc _ "''p1''"] h show ?thesis
    by blast
qed

text \<open>Deleting from a repository that was never connected: no failure is reported.\<close>

theorem vault_delete_not_connected_counterexample:
  "deletePrompt VaultRepo_new ''p1'' = Inr VaultRepo_new
   \<and> deleteTemplate VaultRepo_new ''t1'' = Inr VaultRepo_new"
  by (simp add: deletePrompt_def deleteTemplate_def deleteFile_def VaultRepo_new_def)

text \<open>
  Where the rename check works. Let the identity-to-filename map record the file of the
  document: every \<open>.json\<close> file of the directory whose parsed id is the document's id is
  the one the map holds for that id (so it is after \<open>loadAll\<close>, or after an earlier save of
  the document in the same session). Then \<open>savePrompt\<close> succeeds and returns the name made
  from the current title, the directory afterwards has exactly one file for the id, under
  that name, the map points to it, and a following \<open>loadAll\<close> yields the saved document as
  the only prompt with that id.
\<close>

lemma savePrompt_rename_single_file:
  assumes "dirHandle v = Some dir" and "distinct (map fst dir)"
    and "\<forall>n \<in> set (filesWithId dir (prompt_id p)). fileMap v (prompt_id p) = Some n"
  shows "\<exists>v' dir'. savePrompt v p = Inr (v', promptFileName p)
          \<and> dirHandle v' = Some dir'
          \<and> filesWithId dir' (prompt_id p) = [promptFileName p]
          \<and> fileMap v' (prompt_id p) = Some (promptFileName p)
          \<and> filter (\<lambda>q. prompt_id q = prompt_id p) (fst (snd (loadAll v'))) = [p]"
proof -
  let ?new = "promptFileName p"
  let ?dir1 = "removeOld v dir (prompt_id p) ?new"
  let ?dir2 = "writeFile ?dir1 ?new (PromptJson p)"
  let ?v' = "v\<lparr>dirHandle := Some ?dir2, fileMap := (fileMap v)(prompt_id p \<mapsto> ?new)\<rparr>"
  have s: "savePrompt v p = Inr (?v', ?new)"
    using assms(1) by (simp add: savePrompt_def Let_def)
  have f: "filter (fileHasId (prompt_id p)) ?dir2 = [(?new, Json (PromptJson p))]"
    unfolding writeFile_def
    by (rule filter_fileHasId_update [OF removeOld_distinct [OF assms(2)] removeOld_files [OF assms(3)]])
       simp
  have l: "filter (\<lambda>q. prompt_id q = prompt_id p) (fst (snd (loadAll ?v'))) = [p]"
    by (simp add: loadAll_prompts [of ?v' ?dir2] f)
  show ?thesis
    using s f l by (intro exI [of _ ?v'] exI [of _ ?dir2]) (simp add: filesWithId_def)
qed

lemma savePrompt_loaded_example:
  "dirHandle loadedVault = Some draftDir \<and> distinct (map fst draftDir)
   \<and> filesWithId draftDir (prompt_id finalDoc) = [''Draft__p1.json'']
   \<and> fileMap loadedVault (prompt_id finalDoc) = Some ''Draft__p1.json''
   \<and> filesWithId (savedDirectory (savePrompt loadedVault finalDoc)) (prompt_id finalDoc) =
        [''Final__p1.json'']"
proof -
  have h1: "dirHandle loadedVault = Some draftDir"
    by (simp add: loadedVault_eq)
  have h2: "distinct (map fst draftDir)"
    by (simp add: draftDir_def)
  have i: "prompt_id finalDoc = ''p1''"
    by (simp add: finalDoc_def draftDoc_def doc_def)
  have f: "filesWithId draftDir (prompt_id finalDoc) = [''Draft__p1.json'']"
    by (simp add: i filesWithId_def draftDir_def endsWith_examples draftDoc_def doc_def)
  have m: "fileMap loadedVault (prompt_id finalDoc) = Some ''Draft__p1.json''"
    by (simp add: i loadedVault_eq)
  have h3: "\<forall>n \<in> set (filesWithId draftDir (prompt_id finalDoc)).
      fileMap loadedVault (prompt_id finalDoc) = Some n"
    by (simp add: f m)
  from savePrompt_rename_single_file [OF h1 h2 h3] obtain v' dir' where
    s: "savePrompt loadedVault finalDoc = Inr (v', promptFileName finalDoc)"
    and d: "dirHandle v' = Some dir'"
    and r: "filesWithId dir' (prompt_id finalDoc) = [promptFileName finalDoc]"
    by blast
  have "filesWithId (savedDirectory (savePrompt loadedVault finalDoc)) (prompt_id finalDoc) =
        [''Final__p1.json'']"
    using r by (simp add: s d savedDirectory_def promptFileName_finalDoc)
  with h1 h2 f m show ?thesis by blast
qed

lemma selectedVault_eq:
  "selectedVault = \<lparr>dirHandle = Some draftDir, isConnected = True, fileMap = Map.empty\<rparr>"
  by (simp add: selectedVault_def selectDirectory_def VaultRepo_new_def)

lemma savePrompt_selected_example:
  "filesWithId (savedDirectory (savePrompt selectedVault finalDoc)) ''p1'' =
     [''Draft__p1.json'', ''Final__p1.json'']"
  by code_simp

text \<open>
  C6. Changing the title of a stored document and saving it again must leave one file for
  its id, named from the new title, also when the identity-to-filename map is empty. With
  the map loaded \<open>savePrompt\<close> removes \<open>Draft__p1.json\<close> and leaves \<open>Final__p1.json\<close>. With
  the same directory selected and nothing loaded the map has no entry for the id,
  \<open>savePrompt\<close> looks nowhere else for the old file, and the directory ends up with both
  files for the id.
\<close>

theorem savePrompt_empty_map_leaves_old_file:
  "dirHandle selectedVault = Some draftDir
   \<and> fileMap selectedVault ''p1'' = None
   \<and> filesWithId (savedDirectory (savePrompt selectedVault finalDoc)) ''p1'' =
       [''Draft__p1.json'', ''Final__p1.json'']
   \<and> dirHandle loadedVault = Some draftDir
   \<and> fileMap loadedVault ''p1'' = Some ''Draft__p1.json''
   \<and> filesWithId (savedDirectory (savePrompt loadedVault finalDoc)) ''p1'' =
       [''Final__p1.json'']"
proof -
  have i: "prompt_id finalDoc = ''p1''"
    by (simp add: finalDoc_def draftDoc_def doc_def)
  have l: "filesWithId (savedDirectory (savePrompt loadedVault finalDoc)) ''p1'' =
       [''Final__p1.json'']"
    using savePrompt_loaded_example by (simp add: i)
  have d1: "dirHandle selectedVault = Some draftDir"
    by (simp add: selectedVault_eq)
  have m1: "fileMap selectedVault ''p1'' = None"
    by (simp add: selectedVault_eq)
  have d2: "dirHandle loadedVault = Some draftDir"
    by (simp add: loadedVault_eq)
  have m2: "fileMap loadedVault ''p1'' = Some ''Draft__p1.json''"
    by (simp add: loadedVault_eq)
  show ?thesis
    by (intro conjI d1 m1 savePrompt_selected_example d2 m2 l)
qed


section \<open>Opening the local database\<close>

lemma dispatch_promise:
  "promise_of (dispatch r e) =
     (case e of
        Blocked \<Rightarrow> promise_of r
      | UpgradeNeeded \<Rightarrow> promise_of r
      | Success \<Rightarrow> settle (promise_of r) (Resolved (request_result r))
      | Failed \<Rightarrow> settle (promise_of r) (Rejected ''DB Error''))"
  by (cases e) (simp_all add: onblocked_def onupgradeneeded_def onsuccess_def onerror_def Let_def)

lemma settle_rejected:
  "settle p q = Rejected s \<Longrightarrow> p = Rejected s \<or> (p = Pending \<and> q = Rejected s)"
  by (cases p) (simp_all add: settle_def)

lemma dispatch_rejected:
  assumes "promise_of (dispatch r e) = Rejected s"
  shows "promise_of r = Rejected s \<or> s = ''DB Error''"
proof -
  note p = dispatch_promise [of r e]
  show ?thesis
  proof (cases e)
    case Blocked
    with assms p show ?thesis by simp
  next
    case UpgradeNeeded
    with assms p show ?thesis by simp
  next
    case Success
    with assms p have "settle (promise_of r) (Resolved (request_result r)) = Rejected s"
      by simp
    from settle_rejected [OF this] show ?thesis by simp
  next
    case Failed
    with assms p have "settle (promise_of r) (Rejected ''DB Error'') = Rejected s"
      by simp
    from settle_rejected [OF this] show ?thesis by auto
  qed
qed

lemma promise_rejected:
  "promise_of (foldl dispatch r events) = Rejected s \<Longrightarrow>
     promise_of r = Rejected s \<or> s = ''DB Error''"
proof (induction events arbitrary: r)
  case Nil
  then show ?case by simp
next
  case (Cons e events)
  from Cons.prems have "promise_of (foldl dispatch (dispatch r e) events) = Rejected s"
    by simp
  from Cons.IH [OF this] show ?case
    using dispatch_rejected [of r e s] by blast
qed


lemma dispatch_cong:
  assumes "request_result r1 = request_result r2" and "this_db r1 = this_db r2"
    and "promise_of r1 = promise_of r2"
  shows "request_result (dispatch r1 e) = request_result (dispatch r2 e)
       \<and> this_db (dispatch r1 e) = this_db (dispatch r2 e)
       \<and> promise_of (dispatch r1 e) = promise_of (dispatch r2 e)"
  using assms
  by (cases e) (simp_all add: onblocked_def onupgradeneeded_def onsuccess_def onerror_def Let_def)

lemma dispatch_all_cong:
  assumes "request_result r1 = request_result r2" and "this_db r1 = this_db r2"
    and "promise_of r1 = promise_of r2"
  shows "promise_of (foldl dispatch r1 events) = promise_of (foldl dispatch r2 events)"
  using assms
proof (induction events arbitrary: r1 r2)
  case Nil
  then show ?case by simp
next
  case (Cons e events)
  note c = dispatch_cong [OF Cons.prems, of e]
  have "promise_of (foldl dispatch (dispatch r1 e) events) =
        promise_of (foldl dispatch (dispatch r2 e) events)"
    by (rule Cons.IH)
       (rule c [THEN conjunct1] c [THEN conjunct2, THEN conjunct1]
          c [THEN conjunct2, THEN conjunct2])+
  then show ?case by simp
qed

lemma init_rejected:
  assumes "promise_of (IndexedDBRepo_init existing events) = Rejected s"
  shows "s = ''DB Error''"
proof -
  from assms have "promise_of (foldl dispatch
       \<lparr>request_result = existing, this_db = None, promise_of = Pending, alerts = []\<rparr> events)
       = Rejected s"
    by (simp add: IndexedDBRepo_init_def)
  from promise_rejected [OF this] show ?thesis by simp
qed

lemma init_failed: "promise_of (IndexedDBRepo_init [] [Failed]) = Rejected ''DB Error''"
  by (simp add: IndexedDBRepo_init_def onerror_def settle_def)

lemma init_blocked_only: "promise_of (IndexedDBRepo_init [] [Blocked]) = Pending"
  by (simp add: IndexedDBRepo_init_def onblocked_def)

lemma init_blocked_failed:
  "promise_of (IndexedDBRepo_init [] [Blocked, Failed]) = Rejected ''DB Error''"
  by (simp add: IndexedDBRepo_init_def onblocked_def onerror_def settle_def)

lemma init_blocked_success:
  "promise_of (IndexedDBRepo_init [] [Blocked, UpgradeNeeded, Success]) =
     Resolved [(''prompts'', [''category'', ''client'']), (''templates'', []), (''collections'', [])]"
  by (simp add: IndexedDBRepo_init_def onblocked_def onupgradeneeded_def onsuccess_def
      settle_def createObjectStore_def)

text \<open>
  C9 (amended). When the upgrade is blocked, \<open>init\<close> shows an alert that asks the user to
  close the other tabs and does nothing else: the blocked event leaves the promise and
  \<open>this.db\<close> as they are, so what the caller receives is what it receives without the
  blocked event. The only failure \<open>init\<close> ever delivers is the rejection with the string
  \<open>DB Error\<close>, from the error handler.
\<close>

theorem init_blocked_is_alert_only:
  "promise_of (dispatch r Blocked) = promise_of r
   \<and> this_db (dispatch r Blocked) = this_db r
   \<and> alerts (dispatch r Blocked) = alerts r @
       [''Database Update Blocked: Please close all other tabs/windows of this app and refresh.'']
   \<and> (promise_of (IndexedDBRepo_init existing events) = Rejected s \<longrightarrow> s = ''DB Error'')
   \<and> promise_of (IndexedDBRepo_init existing (Blocked # events)) =
       promise_of (IndexedDBRepo_init existing events)"
proof (intro conjI)
  show "promise_of (dispatch r Blocked) = promise_of r"
    by (simp add: onblocked_def)
  show "this_db (dispatch r Blocked) = this_db r"
    by (simp add: onblocked_def)
  show "alerts (dispatch r Blocked) = alerts r @
       [''Database Update Blocked: Please close all other tabs/windows of this app and refresh.'']"
    by (simp add: onblocked_def)
  show "promise_of (IndexedDBRepo_init existing events) = Rejected s \<longrightarrow> s = ''DB Error''"
    by (blast dest: init_rejected)
  show "promise_of (IndexedDBRepo_init existing (Blocked # events)) =
       promise_of (IndexedDBRepo_init existing events)"
    unfolding IndexedDBRepo_init_def foldl_Cons
    by (rule dispatch_all_cong) (simp_all add: onblocked_def)
qed

theorem init_blocked_is_alert_only_witness:
  "promise_of (IndexedDBRepo_init [] [Blocked, Failed]) = Rejected ''DB Error''
   \<and> promise_of (IndexedDBRepo_init [] [Failed]) = Rejected ''DB Error''"
proof -
  note c = init_blocked_is_alert_only [of _ "[]" "[Failed]"]
  have "promise_of (IndexedDBRepo_init [] [Blocked, Failed]) = promise_of (IndexedDBRepo_init [] [Failed])"
    using c by blast
  with init_failed show ?thesis by simp
qed

text \<open>
  After a blocked event alone the promise is still pending; a blocked upgrade followed by
  an error is rejected with the very value an error alone gives; a blocked upgrade that
  later goes through resolves.
\<close>

theorem init_blocked_counterexample:
  "promise_of (IndexedDBRepo_init [] [Blocked]) = Pending
   \<and> promise_of (IndexedDBRepo_init [] [Blocked, Failed]) = promise_of (IndexedDBRepo_init [] [Failed])
   \<and> promise_of (IndexedDBRepo_init [] [Blocked, UpgradeNeeded, Success]) =
       Resolved [(''prompts'', [''category'', ''client'']), (''templates'', []), (''collections'', [])]"
proof (intro conjI)
  show "promise_of (IndexedDBRepo_init [] [Blocked, Failed]) = promise_of (IndexedDBRepo_init [] [Failed])"
    by (simp only: init_blocked_failed init_failed)
qed (rule init_blocked_only init_blocked_success)+

end
